theory Spec2Isabelle
  imports Main "HOL-Library.Word"
begin

section \<open>The lowering layer of \<open>hpat/distributed_lower.py\<close>\<close>

text \<open>
  Each function of \<open>distributed_lower.py\<close> is registered with \<open>lower_builtin\<close> for one
  or several argument signatures and, when the compiler selects it, emits one call of a
  native routine of the extension module \<open>hdist\<close>. The model keeps what the source
  writes: the Numba types of a signature, the LLVM types of the emitted function type,
  the name of the native symbol and the operands passed to it.
\<close>

subsection \<open>Types and values\<close>

text \<open>The Numba types that occur in signatures (\<open>types.int32\<close>, ..., \<open>types.npytypes.Array\<close>
  with its \<open>dtype\<close> and \<open>ndim\<close>).\<close>

datatype nbtype =
    int8 | int16 | int32 | int64
  | uint8 | uint16 | uint32 | uint64
  | float32 | float64
  | boolean
  | is_Array: Array (dtype: nbtype) (ndim: nat)

text \<open>The LLVM types built with \<open>llvmlite.ir\<close> (\<open>lir.IntType(32)\<close>, \<open>lir.DoubleType()\<close>,
  \<open>t.as_pointer()\<close>, and the \<open>[ndim x i64]\<close> type of an array's shape).\<close>

datatype ltype =
    IntType nat
  | FloatType
  | DoubleType
  | PointerType ltype
  | ArrayType ltype nat
  | ArrayStruct nbtype nat

text \<open>LLVM values as the lowering functions build them: an incoming argument
  \<open>args[k]\<close> with its \<open>.type\<close>, \<open>lir.Constant\<close>, the \<open>data\<close> and \<open>shape\<close> members of
  \<open>make_array(...)(context, builder, v)\<close>, \<open>cgutils.alloca_once_value\<close>,
  \<open>cgutils.alloca_once\<close> followed by \<open>builder.store\<close>, \<open>builder.bitcast\<close> and
  \<open>builder.load\<close>.\<close>

datatype lval =
    Arg nat ltype
  | Constant ltype int
  | array_data lval
  | array_shape lval
  | alloca_once_value lval
  | alloca_once_store ltype lval
  | bitcast lval ltype
  | load lval

record fntype =
  ret :: ltype
  params :: "ltype list"

text \<open>The instruction \<open>builder.call(fn, operands)\<close> where \<open>fn\<close> is
  \<open>builder.module.get_or_insert_function(fnty, name=callee)\<close>.\<close>

record call =
  callee :: string
  fnty :: fntype
  operands :: "lval list"

text \<open>Lowering fails with \<open>NotImplementedError\<close> when no implementation is registered
  for the argument types of the call, with \<open>KeyError\<close> when a type is missing from a
  lookup table, and with \<open>TypingError\<close> when a body given to \<open>compile_internal\<close> cannot
  be typed. All are raised while the program is compiled: nothing has been emitted and no
  native routine has run.\<close>

datatype lower_error = NotImplementedError | KeyError | TypingError

text \<open>The value type of the data model for the scalar types (\<open>args[0].type\<close> of an
  argument of that Numba type).\<close>

fun value_type :: "nbtype \<Rightarrow> ltype" where
  "value_type int8 = IntType 8"
| "value_type int16 = IntType 16"
| "value_type int32 = IntType 32"
| "value_type int64 = IntType 64"
| "value_type uint8 = IntType 8"
| "value_type uint16 = IntType 16"
| "value_type uint32 = IntType 32"
| "value_type uint64 = IntType 64"
| "value_type float32 = FloatType"
| "value_type float64 = DoubleType"
| "value_type boolean = IntType 1"
| "value_type (Array t n) = ArrayStruct t n"

text \<open>The \<open>.type\<close> attribute of an LLVM value.\<close>

fun type_of :: "lval \<Rightarrow> ltype" where
  "type_of (Arg k t) = t"
| "type_of (Constant t c) = t"
| "type_of (array_data v) =
     (case type_of v of ArrayStruct t n \<Rightarrow> PointerType (value_type t) | t \<Rightarrow> PointerType t)"
| "type_of (array_shape v) =
     (case type_of v of ArrayStruct t n \<Rightarrow> ArrayType (IntType 64) n | t \<Rightarrow> t)"
| "type_of (alloca_once_value v) = PointerType (type_of v)"
| "type_of (alloca_once_store t v) = PointerType t"
| "type_of (bitcast v t) = t"
| "type_of (load v) = (case type_of v of PointerType t \<Rightarrow> t | t \<Rightarrow> t)"

text \<open>The native symbols registered with \<open>ll.add_symbol\<close> at import time.\<close>

definition symbols :: "string list" where
  "symbols =
    [''hpat_dist_get_rank'', ''hpat_dist_get_size'', ''hpat_dist_get_end'',
     ''hpat_dist_get_node_portion'', ''hpat_dist_get_time'',
     ''hpat_dist_reduce_i4'', ''hpat_dist_reduce_i8'', ''hpat_dist_reduce_f4'',
     ''hpat_dist_reduce_f8'', ''hpat_dist_arr_reduce'',
     ''hpat_dist_exscan_i4'', ''hpat_dist_exscan_i8'', ''hpat_dist_exscan_f4'',
     ''hpat_dist_exscan_f8'']"

subsection \<open>Partition queries\<close>

text \<open>\<open>dist_get_end\<close> and \<open>dist_get_portion\<close> are registered for the one signature
  \<open>(int64, int64, int32, int32)\<close> and forward \<open>args[0]\<close>, ..., \<open>args[3]\<close>. A call is given
  as the list of its arguments, each with its Numba type (\<open>sig.args\<close> and \<open>args\<close> have the
  same length).\<close>

definition dist_get_end :: "(nbtype \<times> lval) list \<Rightarrow> lower_error + call" where
  "dist_get_end targs =
     (if map fst targs = [int64, int64, int32, int32] then
        (let args = map snd targs;
             fnty = \<lparr>ret = IntType 64,
                     params = [IntType 64, IntType 64, IntType 32, IntType 32]\<rparr>
         in Inr \<lparr>callee = ''hpat_dist_get_end'', fnty = fnty,
                 operands = [args ! 0, args ! 1, args ! 2, args ! 3]\<rparr>)
      else Inl NotImplementedError)"

definition dist_get_portion :: "(nbtype \<times> lval) list \<Rightarrow> lower_error + call" where
  "dist_get_portion targs =
     (if map fst targs = [int64, int64, int32, int32] then
        (let args = map snd targs;
             fnty = \<lparr>ret = IntType 64,
                     params = [IntType 64, IntType 64, IntType 32, IntType 32]\<rparr>
         in Inr \<lparr>callee = ''hpat_dist_get_node_portion'', fnty = fnty,
                 operands = [args ! 0, args ! 1, args ! 2, args ! 3]\<rparr>)
      else Inl NotImplementedError)"

subsection \<open>Scalar reduction and exclusive scan\<close>

text \<open>The dictionary \<open>typ_map\<close> of \<open>lower_dist_reduce\<close> and \<open>lower_dist_exscan\<close>.\<close>

definition typ_map :: "nbtype \<rightharpoonup> string" where
  "typ_map = [int32 \<mapsto> ''i4'', int64 \<mapsto> ''i8'', float32 \<mapsto> ''f4'', float64 \<mapsto> ''f8'']"

text \<open>The four \<open>lower_builtin\<close> decorators of both functions.\<close>

definition registered_scalar :: "nbtype list" where
  "registered_scalar = [int64, int32, float32, float64]"

definition lower_dist_reduce :: "(nbtype \<times> lval) list \<Rightarrow> lower_error + call" where
  "lower_dist_reduce targs =
     (if map fst targs \<in> set (map (\<lambda>t. [t]) registered_scalar) then
        (let sig_args = map fst targs; args = map snd targs;
             ltyp = type_of (args ! 0);
             fnty = \<lparr>ret = ltyp, params = [ltyp]\<rparr>
         in case typ_map (sig_args ! 0) of
              None \<Rightarrow> Inl KeyError
            | Some typ_str \<Rightarrow>
                Inr \<lparr>callee = ''hpat_dist_reduce_'' @ typ_str, fnty = fnty,
                     operands = [args ! 0]\<rparr>)
      else Inl NotImplementedError)"

definition lower_dist_exscan :: "(nbtype \<times> lval) list \<Rightarrow> lower_error + call" where
  "lower_dist_exscan targs =
     (if map fst targs \<in> set (map (\<lambda>t. [t]) registered_scalar) then
        (let sig_args = map fst targs; args = map snd targs;
             ltyp = type_of (args ! 0);
             fnty = \<lparr>ret = ltyp, params = [ltyp]\<rparr>
         in case typ_map (sig_args ! 0) of
              None \<Rightarrow> Inl KeyError
            | Some typ_str \<Rightarrow>
                Inr \<lparr>callee = ''hpat_dist_exscan_'' @ typ_str, fnty = fnty,
                     operands = [args ! 0]\<rparr>)
      else Inl NotImplementedError)"

subsection \<open>Array reduction\<close>

text \<open>\<open>lower_dist_arr_reduce\<close> is registered for one argument of any array type. The
  table \<open>hpat.pio_lower._h5_typ_table\<close>, which gives the integer tag of an element
  type, is defined in another module and is a parameter here. The emitted function type
  returns \<open>lir.IntType(32)\<close>, and the result of the call is the result of the lowering.\<close>

definition lower_dist_arr_reduce ::
    "(nbtype \<rightharpoonup> int) \<Rightarrow> (nbtype \<times> lval) list \<Rightarrow> lower_error + call" where
  "lower_dist_arr_reduce h5_typ_table targs =
     (if length targs = 1 \<and> is_Array (fst (targs ! 0)) then
        (let sig_args = map fst targs; args = map snd targs
         in case h5_typ_table (dtype (sig_args ! 0)) of
              None \<Rightarrow> Inl KeyError
            | Some typ_enum \<Rightarrow>
               (let typ_arg = alloca_once_value (Constant (IntType 32) typ_enum);
                    out = args ! 0;
                    size_ptr = alloca_once_store (type_of (array_shape out)) (array_shape out);
                    size_arg = bitcast size_ptr (PointerType (IntType 64));
                    ndim_arg = alloca_once_value
                                 (Constant (IntType 32) (int (ndim (sig_args ! 0))));
                    call_args = [bitcast (array_data out) (PointerType (IntType 8)),
                                 size_arg, load ndim_arg, load typ_arg];
                    arg_typs = [PointerType (IntType 8), PointerType (IntType 64),
                                IntType 32, IntType 32];
                    fnty = \<lparr>ret = IntType 32, params = arg_typs\<rparr>
                in Inr \<lparr>callee = ''hpat_dist_arr_reduce'', fnty = fnty,
                        operands = call_args\<rparr>))
      else Inl NotImplementedError)"

subsection \<open>Cumulative sum: what is compiled\<close>



section \<open>The body \<open>cumsum_impl\<close> at run time\<close>

text \<open>
  The compiled body checks no index: \<open>out_arr[i] = prefix_var\<close> is a store at the address
  of element \<open>i\<close>, whether or not \<open>i\<close> is below the size of \<open>out_arr\<close>. So the memory of a
  worker is flat, a function from addresses (counted in elements) to values, and a
  one-dimensional array is a view of it: the address of its first element and its size.
  Two arrays may be the same view, disjoint views, or views that overlap.
\<close>

type_synonym 'a mem = "nat \<Rightarrow> 'a"

record arr =
  arr_data :: nat
  arr_size :: nat

text \<open>The elements of an array, in index order.\<close>

definition elems :: "'a mem \<Rightarrow> arr \<Rightarrow> 'a list" where
  "elems m a = map (\<lambda>k. m (arr_data a + k)) [0..<arr_size a]"

text \<open>The addition of the element type \<open>dtype\<close> is the parameter \<open>add\<close> and \<open>dtype(0)\<close> is
  the parameter \<open>zero\<close>: for \<open>int32\<close> and \<open>int64\<close> they are \<open>+\<close> and \<open>0\<close> of \<open>32 word\<close>
  and \<open>64 word\<close>, which wrap as a variable typed \<open>dtype\<close> does; for \<open>float32\<close> the addition
  is \<open>f32_add\<close> below.\<close>

text \<open>\<open>for v in np.nditer(in_arr): c += v.item()\<close>, over the elements of \<open>in_arr\<close>.\<close>

fun nditer_sum :: "('a \<Rightarrow> 'a \<Rightarrow> 'a) \<Rightarrow> 'a list \<Rightarrow> 'a \<Rightarrow> 'a" where
  "nditer_sum add [] c = c"
| "nditer_sum add (v # vs) c = nditer_sum add vs (add c v)"

text \<open>\<open>for i in range(in_arr.size): prefix_var += in_arr[i]; out_arr[i] = prefix_var\<close>,
  from index \<open>i\<close> on, with \<open>n = in_arr.size\<close>. The read is below the size of \<open>in_arr\<close>; the
  store goes to the address \<open>arr_data out_arr + i\<close> unchecked.\<close>

function scan_loop ::
    "('a \<Rightarrow> 'a \<Rightarrow> 'a) \<Rightarrow> 'a mem \<Rightarrow> arr \<Rightarrow> arr \<Rightarrow> nat \<Rightarrow> nat \<Rightarrow> 'a \<Rightarrow> 'a mem" where
  "scan_loop add m in_arr out_arr i n prefix_var =
     (if i < n then
        (let prefix_var = add prefix_var (m (arr_data in_arr + i))
         in scan_loop add (m(arr_data out_arr + i := prefix_var))
              in_arr out_arr (i + 1) n prefix_var)
      else m)"
  by pat_completeness auto
termination
proof (relation "measure (\<lambda>(add, m, in_arr, out_arr, i, n, prefix_var). n - i)")
  show "wf (measure (\<lambda>(add, m, in_arr, out_arr, i, n, prefix_var). n - i))"
    by (rule wf_measure)
next
  fix add :: "'a \<Rightarrow> 'a \<Rightarrow> 'a" and m :: "'a mem" and in_arr out_arr :: arr
    and i n :: nat and prefix_var x :: 'a
  assume "i < n"
  then show "((add, m(arr_data out_arr + i := x), in_arr, out_arr, i + 1, n, x),
              (add, m, in_arr, out_arr, i, n, prefix_var))
             \<in> measure (\<lambda>(add, m, in_arr, out_arr, i, n, prefix_var). n - i)"
    by simp
qed

declare scan_loop.simps [simp del]

text \<open>\<open>cumsum_impl\<close>. The collective \<open>distributed_api.dist_exscan\<close>, as this worker sees
  it, is the parameter \<open>dist_exscan\<close>. The result is the returned integer and the memory
  after the call.\<close>

definition cumsum_impl ::
    "('a \<Rightarrow> 'a \<Rightarrow> 'a) \<Rightarrow> 'a \<Rightarrow> ('a \<Rightarrow> 'a) \<Rightarrow> 'a mem \<Rightarrow> arr \<Rightarrow> arr \<Rightarrow> int \<times> 'a mem" where
  "cumsum_impl add zero dist_exscan m in_arr out_arr =
     (let c = nditer_sum add (elems m in_arr) zero;
          prefix_var = dist_exscan c;
          m' = scan_loop add m in_arr out_arr 0 (arr_size in_arr) prefix_var
      in (0, m'))"

subsection \<open>Addition of \<open>float32\<close>\<close>





section \<open>The native routines, from the specification\<close>



text \<open>The buffers of the array reduction are objects of a store, named by addresses.\<close>

type_synonym addr = nat
type_synonym 'a store = "addr \<Rightarrow> 'a list"

text \<open>Modelled from the spec: the native routine \<open>hpat_dist_arr_reduce\<close> of \<open>hdist\<close> is
  not among the sources. The specification: reduceArray combines elementwise, with Sum,
  the equally-shaped buffers held by every worker, and every worker gets the combined
  array. \<open>bufs\<close> lists the buffers in rank order. The routine receives the buffer's data
  pointer and returns a 32-bit integer, so the combined array replaces the buffer's
  contents; the integer is not described and is the parameter \<open>status\<close>.\<close>

definition elementwise_sum :: "'a::monoid_add list list \<Rightarrow> 'a list" where
  "elementwise_sum bufs =
     (case bufs of [] \<Rightarrow> [] | b # bs \<Rightarrow> foldl (\<lambda>acc x. map2 (+) acc x) b bs)"

text \<open>Modelled from the spec: the native routine \<open>hpat_dist_arr_reduce\<close>, as one
  worker sees it: the combined array of all workers' buffers replaces the contents of
  the array at \<open>arr\<close>, and the integer \<open>status\<close> is returned.\<close>

definition hpat_dist_arr_reduce ::
    "32 word \<Rightarrow> 'a::monoid_add list list \<Rightarrow> 'a store \<Rightarrow> addr \<Rightarrow> 32 word \<times> 'a store" where
  "hpat_dist_arr_reduce status bufs s arr = (status, s(arr := elementwise_sum bufs))"

text \<open>Modelled from the spec: the native routines \<open>hpat_dist_get_end\<close> and
  \<open>hpat_dist_get_node_portion\<close> of \<open>hdist\<close> are not among the sources. The
  specification: with base = totalLength div worldSize and remainder = totalLength mod
  worldSize, the remainder lowest-ranked workers get base + 1 elements and the rest get
  base; partitionEnd is the cumulative sum of the sizes for the ranks up to rank, with
  partitionEnd(-1) = 0; partitionSize(rank) is partitionEnd(rank) - partitionEnd(rank - 1).\<close>

definition share :: "int \<Rightarrow> int \<Rightarrow> int \<Rightarrow> int" where
  "share totalLength k worldSize =
     (let base = totalLength div worldSize;
          remainder = totalLength mod worldSize
      in if k < remainder then base + 1 else base)"

text \<open>Modelled from the spec: the native routine \<open>hpat_dist_get_end\<close>; partitionEnd is
  the cumulative sum of the sizes for the ranks \<open>0..rank\<close>, and 0 for rank \<open>-1\<close>.\<close>

definition partitionEnd :: "int \<Rightarrow> int \<Rightarrow> int \<Rightarrow> int" where
  "partitionEnd totalLength rank worldSize =
     sum_list (map (\<lambda>k. share totalLength k worldSize) [0..rank])"

text \<open>Modelled from the spec: the native routine \<open>hpat_dist_get_node_portion\<close>;
  partitionSize(rank) is partitionEnd(rank) - partitionEnd(rank - 1).\<close>

definition partitionSize :: "int \<Rightarrow> int \<Rightarrow> int \<Rightarrow> int" where
  "partitionSize totalLength rank worldSize =
     partitionEnd totalLength rank worldSize - partitionEnd totalLength (rank - 1) worldSize"

section \<open>The loops of \<open>cumsum_impl\<close>\<close>

lemma nditer_sum_foldl: "nditer_sum add xs c = foldl add c xs"
  by (induction xs arbitrary: c) simp_all


lemma scan_loop_done: "\<not> i < n \<Longrightarrow> scan_loop add m inp out i n p = m"
  by (simp add: scan_loop.simps [of add m inp out i n p])

lemma scan_loop_step:
  "i < n \<Longrightarrow>
   scan_loop add m inp out i n p =
   scan_loop add (m(arr_data out + i := add p (m (arr_data inp + i)))) inp out (i + 1) n
     (add p (m (arr_data inp + i)))"
  by (simp add: scan_loop.simps [of add m inp out i n p] Let_def)

lemma scan_loop_frame:
  "a \<notin> {arr_data out + i ..< arr_data out + n} \<Longrightarrow> scan_loop add m inp out i n p a = m a"
proof (induction k \<equiv> "n - i" arbitrary: i m p)
  case 0
  then show ?case by (simp add: scan_loop_done)
next
  case (Suc k)
  then have lt: "i < n" by simp
  let ?p = "add p (m (arr_data inp + i))"
  let ?m = "m(arr_data out + i := ?p)"
  from Suc.hyps(2) have k: "k = n - (i + 1)" by simp
  from Suc.prems lt have a1: "a \<notin> {arr_data out + (i + 1) ..< arr_data out + n}"
    and a2: "a \<noteq> arr_data out + i" by auto
  have "scan_loop add m inp out i n p a = scan_loop add ?m inp out (i + 1) n ?p a"
    using lt by (simp add: scan_loop_step)
  also have "\<dots> = ?m a" by (rule Suc.hyps(1) [OF k a1])
  also have "\<dots> = m a" using a2 by simp
  finally show ?case .
qed

lemma scan_loop_value:
  assumes H: "arr_data out \<le> arr_data inp \<or> arr_data inp + n \<le> arr_data out"
  shows "i \<le> j \<Longrightarrow> j < n \<Longrightarrow>
         scan_loop add m inp out i n p (arr_data out + j) =
         foldl add p (map (\<lambda>k. m (arr_data inp + k)) [i..<Suc j])"
proof (induction k \<equiv> "n - i" arbitrary: i m p)
  case 0
  then show ?case by simp
next
  case (Suc k)
  then have lt: "i < n" by simp
  define p1 where "p1 = add p (m (arr_data inp + i))"
  define m1 where "m1 = m(arr_data out + i := p1)"
  from Suc.hyps(2) have k: "k = n - (i + 1)" by simp
  have step: "scan_loop add m inp out i n p = scan_loop add m1 inp out (i + 1) n p1"
    using lt by (simp add: scan_loop_step m1_def p1_def)
  show ?case
  proof (cases "j = i")
    case True
    have "arr_data out + i \<notin> {arr_data out + (i + 1) ..< arr_data out + n}" by simp
    from scan_loop_frame [OF this, of add m1 inp p1]
    have "scan_loop add m1 inp out (i + 1) n p1 (arr_data out + i) = p1"
      by (simp add: m1_def)
    with step True show ?thesis by (simp add: p1_def)
  next
    case False
    with Suc.prems have ij: "i + 1 \<le> j" by simp
    have cong: "map (\<lambda>k. m1 (arr_data inp + k)) [i + 1..<Suc j] =
               map (\<lambda>k. m (arr_data inp + k)) [i + 1..<Suc j]"
    proof (rule map_cong [OF refl])
      fix x assume "x \<in> set [i + 1..<Suc j]"
      then have "i < x" "x < n" using Suc.prems(2) by auto
      with H have "arr_data inp + x \<noteq> arr_data out + i" by auto
      then show "m1 (arr_data inp + x) = m (arr_data inp + x)" by (simp add: m1_def)
    qed
    have u: "[i..<Suc j] = i # [i + 1..<Suc j]"
      using Suc.prems(1) by (subst upt_conv_Cons) simp_all
    have "scan_loop add m inp out i n p (arr_data out + j) =
          scan_loop add m1 inp out (i + 1) n p1 (arr_data out + j)"
      by (simp only: step)
    also have "\<dots> = foldl add p1 (map (\<lambda>k. m1 (arr_data inp + k)) [i + 1..<Suc j])"
      by (rule Suc.hyps(1) [OF k ij Suc.prems(2)])
    also have "\<dots> = foldl add p1 (map (\<lambda>k. m (arr_data inp + k)) [i + 1..<Suc j])"
      by (simp only: cong)
    also have "\<dots> = foldl add p (map (\<lambda>k. m (arr_data inp + k)) [i..<Suc j])"
      by (simp only: u list.map foldl_Cons p1_def)
    finally show ?thesis .
  qed
qed

lemma elems_take:
  "j < arr_size a \<Longrightarrow> map (\<lambda>k. m (arr_data a + k)) [0..<Suc j] = take (Suc j) (elems m a)"
  by (simp add: elems_def take_map del: upt_Suc)



lemma cumsum_impl_returns: "fst (cumsum_impl add zero ex m inp out) = 0"
  by (simp add: cumsum_impl_def Let_def)

lemma cumsum_impl_frame:
  "a \<notin> {arr_data out ..< arr_data out + arr_size inp} \<Longrightarrow>
   snd (cumsum_impl add zero ex m inp out) a = m a"
  using scan_loop_frame [of a out 0 "arr_size inp" add m inp]
  by (simp add: cumsum_impl_def Let_def)

lemma cumsum_impl_value:
  assumes "arr_data out \<le> arr_data inp \<or> arr_data inp + arr_size inp \<le> arr_data out"
    and "j < arr_size inp"
  shows "snd (cumsum_impl add zero ex m inp out) (arr_data out + j) =
         foldl add (ex (foldl add zero (elems m inp))) (take (Suc j) (elems m inp))"
  using scan_loop_value [OF assms(1), of 0 j add m] assms(2)
  by (simp add: cumsum_impl_def Let_def nditer_sum_foldl elems_take del: upt_Suc)








lemma run_short_output:
  "elems (snd (cumsum_impl (+) 0 (\<lambda>c. 0) ((\<lambda>a. 0)(2 := 1, 3 := 2, 4 := 3))
                \<lparr>arr_data = 2, arr_size = 3\<rparr> \<lparr>arr_data = 0, arr_size = 2\<rparr>))
         \<lparr>arr_data = 2, arr_size = 3\<rparr> = [6, 2, 3 :: int]"
  by code_simp

section \<open>Cumulative sum\<close>







text \<open>
  Claim C8, as stated, fails: the arrays \<open>out_arr\<close> at the addresses 0..1 and \<open>in_arr\<close> at
  the addresses 2..4 do not overlap, and with \<open>in_arr = [1, 2, 3]\<close> the third store,
  \<open>out_arr[2] = 6\<close>, goes past the end of \<open>out_arr\<close> to the address of \<open>in_arr[0]\<close>: after
  the call \<open>in_arr\<close> is \<open>[6, 2, 3]\<close>.
\<close>

theorem cumsum_overwrites_input_counterexample:
  "arr_data \<lparr>arr_data = 0, arr_size = 2\<rparr> + arr_size \<lparr>arr_data = 0, arr_size = 2\<rparr>
     \<le> arr_data \<lparr>arr_data = 2, arr_size = 3\<rparr> \<and>
   elems ((\<lambda>a. 0)(2 := 1, 3 := 2, 4 := 3)) \<lparr>arr_data = 2, arr_size = 3\<rparr> = [1, 2, 3 :: int] \<and>
   elems (snd (cumsum_impl (+) 0 (\<lambda>c. 0) ((\<lambda>a. 0)(2 := 1, 3 := 2, 4 := 3))
                \<lparr>arr_data = 2, arr_size = 3\<rparr> \<lparr>arr_data = 0, arr_size = 2\<rparr>))
         \<lparr>arr_data = 2, arr_size = 3\<rparr> = [6, 2, 3 :: int]"
proof -
  have "elems ((\<lambda>a. 0)(2 := 1, 3 := 2, 4 := 3)) \<lparr>arr_data = 2, arr_size = 3\<rparr> = [1, 2, 3 :: int]"
    by code_simp
  with run_short_output show ?thesis by simp
qed

text \<open>
  Claim C8, amended. When the input and the output array do not overlap and the output
  array is at least as long as the input array, \<open>cumsum_impl\<close> leaves every element of
  the input array as it was, and every address outside the output array keeps its
  contents: only the output array is modified.
\<close>

theorem cumsum_leaves_input_unchanged:
  assumes "arr_data in_arr + arr_size in_arr \<le> arr_data out_arr \<or>
           arr_data out_arr + arr_size out_arr \<le> arr_data in_arr"
    and "arr_size in_arr \<le> arr_size out_arr"
  shows "elems (snd (cumsum_impl add zero dist_exscan m in_arr out_arr)) in_arr = elems m in_arr \<and>
         (\<forall>a. a \<notin> {arr_data out_arr ..< arr_data out_arr + arr_size out_arr} \<longrightarrow>
              snd (cumsum_impl add zero dist_exscan m in_arr out_arr) a = m a)"
proof (intro conjI allI impI)
  fix a assume "a \<notin> {arr_data out_arr ..< arr_data out_arr + arr_size out_arr}"
  with assms(2) have "a \<notin> {arr_data out_arr ..< arr_data out_arr + arr_size in_arr}" by auto
  then show "snd (cumsum_impl add zero dist_exscan m in_arr out_arr) a = m a"
    by (rule cumsum_impl_frame)
next
  have "\<And>k. k < arr_size in_arr \<Longrightarrow>
          snd (cumsum_impl add zero dist_exscan m in_arr out_arr) (arr_data in_arr + k) =
          m (arr_data in_arr + k)"
  proof -
    fix k assume "k < arr_size in_arr"
    with assms have "arr_data in_arr + k \<notin>
        {arr_data out_arr ..< arr_data out_arr + arr_size in_arr}" by auto
    then show "snd (cumsum_impl add zero dist_exscan m in_arr out_arr) (arr_data in_arr + k) =
          m (arr_data in_arr + k)" by (rule cumsum_impl_frame)
  qed
  then show "elems (snd (cumsum_impl add zero dist_exscan m in_arr out_arr)) in_arr =
             elems m in_arr"
    by (simp add: elems_def)
qed

theorem cumsum_leaves_input_unchanged_witness:
  "(arr_data \<lparr>arr_data = 0, arr_size = 3\<rparr> + arr_size \<lparr>arr_data = 0, arr_size = 3\<rparr>
      \<le> arr_data \<lparr>arr_data = 10, arr_size = 3\<rparr>) \<and>
   arr_size \<lparr>arr_data = 0, arr_size = 3\<rparr> \<le> arr_size \<lparr>arr_data = 10, arr_size = 3\<rparr> \<and>
   elems (snd (cumsum_impl (+) 0 (\<lambda>c. 0) ((\<lambda>a. 0)(0 := 1, 1 := 2, 2 := 3 :: int))
                \<lparr>arr_data = 0, arr_size = 3\<rparr> \<lparr>arr_data = 10, arr_size = 3\<rparr>))
         \<lparr>arr_data = 0, arr_size = 3\<rparr> = [1, 2, 3] \<and>
   snd (cumsum_impl (+) 0 (\<lambda>c. 0) ((\<lambda>a. 0)(0 := 1, 1 := 2, 2 := 3 :: int))
          \<lparr>arr_data = 0, arr_size = 3\<rparr> \<lparr>arr_data = 10, arr_size = 3\<rparr>) 13 = 0"
proof -
  let ?m = "(\<lambda>a::nat. 0)(0 := 1, 1 := 2, 2 := 3 :: int)"
  let ?i = "\<lparr>arr_data = 0, arr_size = 3\<rparr>"
  let ?o = "\<lparr>arr_data = 10, arr_size = 3\<rparr>"
  have d: "arr_data ?i + arr_size ?i \<le> arr_data ?o \<or> arr_data ?o + arr_size ?o \<le> arr_data ?i"
    by simp
  have l: "arr_size ?i \<le> arr_size ?o" by simp
  have ei: "elems ?m ?i = [1, 2, 3]" by code_simp
  note th = cumsum_leaves_input_unchanged [OF d l, of "(+)" 0 "\<lambda>c. 0" ?m]
  from th ei have 1: "elems (snd (cumsum_impl (+) 0 (\<lambda>c. 0) ?m ?i ?o)) ?i = [1, 2, 3]" by simp
  from th have "(13::nat) \<notin> {arr_data ?o ..< arr_data ?o + arr_size ?o} \<longrightarrow>
      snd (cumsum_impl (+) 0 (\<lambda>c. 0) ?m ?i ?o) 13 = ?m 13" by blast
  then have 2: "snd (cumsum_impl (+) 0 (\<lambda>c. 0) ?m ?i ?o) 13 = 0" by simp
  from 1 2 show ?thesis by simp
qed

text \<open>
  Claim C9. Whatever the arguments, \<open>cumsum_impl\<close> returns the integer 0. The memory
  after the call differs from the memory before at most at the addresses of
  \<open>out_arr[0]\<close>, ..., \<open>out_arr[in_arr.size - 1]\<close>, and these hold the running totals seeded
  with the result of the exclusive scan (provided the output array does not begin at a
  later element of the input array, so that no store lands on an element still to be
  read): the result is delivered through the output array argument, not through the
  returned value.
\<close>

theorem cumsum_returns_zero:
  "fst (cumsum_impl add zero dist_exscan m in_arr out_arr) = 0 \<and>
   (\<forall>a. a \<notin> {arr_data out_arr ..< arr_data out_arr + arr_size in_arr} \<longrightarrow>
        snd (cumsum_impl add zero dist_exscan m in_arr out_arr) a = m a) \<and>
   (arr_data out_arr \<le> arr_data in_arr \<or>
    arr_data in_arr + arr_size in_arr \<le> arr_data out_arr \<longrightarrow>
      (\<forall>j < arr_size in_arr.
         snd (cumsum_impl add zero dist_exscan m in_arr out_arr) (arr_data out_arr + j) =
         foldl add (dist_exscan (foldl add zero (elems m in_arr)))
           (take (j + 1) (elems m in_arr))))"
proof (intro conjI allI impI)
  show "fst (cumsum_impl add zero dist_exscan m in_arr out_arr) = 0"
    by (rule cumsum_impl_returns)
next
  fix a assume "a \<notin> {arr_data out_arr ..< arr_data out_arr + arr_size in_arr}"
  then show "snd (cumsum_impl add zero dist_exscan m in_arr out_arr) a = m a"
    by (rule cumsum_impl_frame)
next
  fix j
  assume "arr_data out_arr \<le> arr_data in_arr \<or>
          arr_data in_arr + arr_size in_arr \<le> arr_data out_arr"
    and "j < arr_size in_arr"
  from cumsum_impl_value [OF this, of add zero dist_exscan m]
  show "snd (cumsum_impl add zero dist_exscan m in_arr out_arr) (arr_data out_arr + j) =
         foldl add (dist_exscan (foldl add zero (elems m in_arr)))
           (take (j + 1) (elems m in_arr))" by simp
qed

theorem cumsum_returns_zero_witness:
  "fst (cumsum_impl (+) 0 (\<lambda>c. 6) ((\<lambda>a. 0)(0 := 4, 1 := 5, 2 := 6 :: int))
          \<lparr>arr_data = 0, arr_size = 3\<rparr> \<lparr>arr_data = 10, arr_size = 3\<rparr>) = 0 \<and>
   snd (cumsum_impl (+) 0 (\<lambda>c. 6) ((\<lambda>a. 0)(0 := 4, 1 := 5, 2 := 6 :: int))
          \<lparr>arr_data = 0, arr_size = 3\<rparr> \<lparr>arr_data = 10, arr_size = 3\<rparr>) 1 = 5 \<and>
   snd (cumsum_impl (+) 0 (\<lambda>c. 6) ((\<lambda>a. 0)(0 := 4, 1 := 5, 2 := 6 :: int))
          \<lparr>arr_data = 0, arr_size = 3\<rparr> \<lparr>arr_data = 10, arr_size = 3\<rparr>) 10 = 10 \<and>
   snd (cumsum_impl (+) 0 (\<lambda>c. 6) ((\<lambda>a. 0)(0 := 4, 1 := 5, 2 := 6 :: int))
          \<lparr>arr_data = 0, arr_size = 3\<rparr> \<lparr>arr_data = 10, arr_size = 3\<rparr>) 11 = 15 \<and>
   snd (cumsum_impl (+) 0 (\<lambda>c. 6) ((\<lambda>a. 0)(0 := 4, 1 := 5, 2 := 6 :: int))
          \<lparr>arr_data = 0, arr_size = 3\<rparr> \<lparr>arr_data = 10, arr_size = 3\<rparr>) 12 = 21"
proof -
  let ?m = "(\<lambda>a::nat. 0)(0 := 4, 1 := 5, 2 := 6 :: int)"
  let ?i = "\<lparr>arr_data = 0, arr_size = 3\<rparr>"
  let ?o = "\<lparr>arr_data = 10, arr_size = 3\<rparr>"
  note th = cumsum_returns_zero [of "(+)" 0 "\<lambda>c. 6" ?m ?i ?o]
  have ei: "elems ?m ?i = [4, 5, 6]" by code_simp
  from th have z: "fst (cumsum_impl (+) 0 (\<lambda>c. 6) ?m ?i ?o) = 0" by blast
  from th have "(1::nat) \<notin> {arr_data ?o ..< arr_data ?o + arr_size ?i} \<longrightarrow>
      snd (cumsum_impl (+) 0 (\<lambda>c. 6) ?m ?i ?o) 1 = ?m 1" by blast
  then have f: "snd (cumsum_impl (+) 0 (\<lambda>c. 6) ?m ?i ?o) 1 = 5" by simp
  have n: "arr_data ?o \<le> arr_data ?i \<or> arr_data ?i + arr_size ?i \<le> arr_data ?o" by simp
  with th have v: "\<forall>j < arr_size ?i.
         snd (cumsum_impl (+) 0 (\<lambda>c. 6) ?m ?i ?o) (arr_data ?o + j) =
         foldl (+) ((\<lambda>c. 6) (foldl (+) 0 (elems ?m ?i))) (take (j + 1) (elems ?m ?i))"
    by blast
  from v [rule_format, of 0] v [rule_format, of 1] v [rule_format, of 2]
  have "snd (cumsum_impl (+) 0 (\<lambda>c. 6) ?m ?i ?o) 10 = 10"
    "snd (cumsum_impl (+) 0 (\<lambda>c. 6) ?m ?i ?o) 11 = 15"
    "snd (cumsum_impl (+) 0 (\<lambda>c. 6) ?m ?i ?o) 12 = 21"
    unfolding ei by simp_all
  with z f show ?thesis by blast
qed

section \<open>Wrap-around at the element width\<close>







section \<open>Dispatch of the scalar collectives\<close>

lemma typ_map_simps:
  "typ_map int32 = Some ''i4''" "typ_map int64 = Some ''i8''"
  "typ_map float32 = Some ''f4''" "typ_map float64 = Some ''f8''"
  by (simp_all add: typ_map_def)

lemma lower_dist_reduce_single:
  "lower_dist_reduce [(t, a)] =
     (if t \<in> {int32, int64, float32, float64} then
        Inr \<lparr>callee = ''hpat_dist_reduce_'' @ the (typ_map t),
             fnty = \<lparr>ret = type_of a, params = [type_of a]\<rparr>, operands = [a]\<rparr>
      else Inl NotImplementedError)"
  unfolding lower_dist_reduce_def
  by (auto simp: registered_scalar_def typ_map_simps Let_def)

lemma lower_dist_exscan_single:
  "lower_dist_exscan [(t, a)] =
     (if t \<in> {int32, int64, float32, float64} then
        Inr \<lparr>callee = ''hpat_dist_exscan_'' @ the (typ_map t),
             fnty = \<lparr>ret = type_of a, params = [type_of a]\<rparr>, operands = [a]\<rparr>
      else Inl NotImplementedError)"
  unfolding lower_dist_exscan_def
  by (auto simp: registered_scalar_def typ_map_simps Let_def)

text \<open>
  Claim C7. \<open>lower_dist_reduce\<close> and \<open>lower_dist_exscan\<close> produce a call exactly for the
  element types \<open>int32\<close>, \<open>int64\<close>, \<open>float32\<close> and \<open>float64\<close>; the callee is the native
  routine tagged \<open>i4\<close>, \<open>i8\<close>, \<open>f4\<close> and \<open>f8\<close> respectively, one of the registered
  symbols, taking and returning one value of the argument's type. For any other element
  type the lowering fails (no implementation is registered for the type, the
  specification's UnsupportedType) while the program is compiled, so no call is emitted
  and no communication takes place.
\<close>

theorem scalar_dispatch_by_type:
  "((\<exists>c. lower_dist_reduce [(t, a)] = Inr c) \<longleftrightarrow> t \<in> {int32, int64, float32, float64}) \<and>
   ((\<exists>c. lower_dist_exscan [(t, a)] = Inr c) \<longleftrightarrow> t \<in> {int32, int64, float32, float64}) \<and>
   (t \<notin> {int32, int64, float32, float64} \<longrightarrow>
      lower_dist_reduce [(t, a)] = Inl NotImplementedError \<and>
      lower_dist_exscan [(t, a)] = Inl NotImplementedError) \<and>
   (\<forall>c. lower_dist_reduce [(t, a)] = Inr c \<or> lower_dist_exscan [(t, a)] = Inr c \<longrightarrow>
      callee c \<in> set symbols \<and> fnty c = \<lparr>ret = type_of a, params = [type_of a]\<rparr> \<and>
      operands c = [a]) \<and>
   map_sum id callee (lower_dist_reduce [(int32, a)]) = Inr ''hpat_dist_reduce_i4'' \<and>
   map_sum id callee (lower_dist_reduce [(int64, a)]) = Inr ''hpat_dist_reduce_i8'' \<and>
   map_sum id callee (lower_dist_reduce [(float32, a)]) = Inr ''hpat_dist_reduce_f4'' \<and>
   map_sum id callee (lower_dist_reduce [(float64, a)]) = Inr ''hpat_dist_reduce_f8'' \<and>
   map_sum id callee (lower_dist_exscan [(int32, a)]) = Inr ''hpat_dist_exscan_i4'' \<and>
   map_sum id callee (lower_dist_exscan [(int64, a)]) = Inr ''hpat_dist_exscan_i8'' \<and>
   map_sum id callee (lower_dist_exscan [(float32, a)]) = Inr ''hpat_dist_exscan_f4'' \<and>
   map_sum id callee (lower_dist_exscan [(float64, a)]) = Inr ''hpat_dist_exscan_f8''"
proof -
  have 1: "(\<exists>c. lower_dist_reduce [(t, a)] = Inr c) \<longleftrightarrow> t \<in> {int32, int64, float32, float64}"
    by (simp add: lower_dist_reduce_single)
  have 2: "(\<exists>c. lower_dist_exscan [(t, a)] = Inr c) \<longleftrightarrow> t \<in> {int32, int64, float32, float64}"
    by (simp add: lower_dist_exscan_single)
  have 3: "t \<notin> {int32, int64, float32, float64} \<longrightarrow>
      lower_dist_reduce [(t, a)] = Inl NotImplementedError \<and>
      lower_dist_exscan [(t, a)] = Inl NotImplementedError"
    by (simp add: lower_dist_reduce_single lower_dist_exscan_single)
  have 4: "\<forall>c. lower_dist_reduce [(t, a)] = Inr c \<or> lower_dist_exscan [(t, a)] = Inr c \<longrightarrow>
      callee c \<in> set symbols \<and> fnty c = \<lparr>ret = type_of a, params = [type_of a]\<rparr> \<and>
      operands c = [a]"
    by (auto simp: lower_dist_reduce_single lower_dist_exscan_single typ_map_simps symbols_def
        split: if_splits)
  have 5: "map_sum id callee (lower_dist_reduce [(int32, a)]) = Inr ''hpat_dist_reduce_i4''"
    "map_sum id callee (lower_dist_reduce [(int64, a)]) = Inr ''hpat_dist_reduce_i8''"
    "map_sum id callee (lower_dist_reduce [(float32, a)]) = Inr ''hpat_dist_reduce_f4''"
    "map_sum id callee (lower_dist_reduce [(float64, a)]) = Inr ''hpat_dist_reduce_f8''"
    by (simp_all add: lower_dist_reduce_single typ_map_simps)
  have 6: "map_sum id callee (lower_dist_exscan [(int32, a)]) = Inr ''hpat_dist_exscan_i4''"
    "map_sum id callee (lower_dist_exscan [(int64, a)]) = Inr ''hpat_dist_exscan_i8''"
    "map_sum id callee (lower_dist_exscan [(float32, a)]) = Inr ''hpat_dist_exscan_f4''"
    "map_sum id callee (lower_dist_exscan [(float64, a)]) = Inr ''hpat_dist_exscan_f8''"
    by (simp_all add: lower_dist_exscan_single typ_map_simps)
  from 1 2 3 4 5 6 show ?thesis by (intro conjI)
qed

theorem scalar_dispatch_by_type_witness:
  "int16 \<notin> {int32, int64, float32, float64} \<and>
   lower_dist_reduce [(int16, Arg 0 (IntType 16))] = Inl NotImplementedError \<and>
   lower_dist_exscan [(int16, Arg 0 (IntType 16))] = Inl NotImplementedError \<and>
   lower_dist_reduce [(float64, Arg 0 DoubleType)] =
     Inr \<lparr>callee = ''hpat_dist_reduce_f8'',
          fnty = \<lparr>ret = DoubleType, params = [DoubleType]\<rparr>, operands = [Arg 0 DoubleType]\<rparr>"
proof -
  have n: "int16 \<notin> {int32, int64, float32, float64}" by simp
  note w = scalar_dispatch_by_type [of int16 "Arg 0 (IntType 16)"]
  note v = scalar_dispatch_by_type [of float64 "Arg 0 DoubleType"]
  from w n have a: "lower_dist_reduce [(int16, Arg 0 (IntType 16))] = Inl NotImplementedError"
    and b: "lower_dist_exscan [(int16, Arg 0 (IntType 16))] = Inl NotImplementedError"
    by blast+
  from v obtain c where c: "lower_dist_reduce [(float64, Arg 0 DoubleType)] = Inr c" by auto
  with v have "callee c = ''hpat_dist_reduce_f8''"
    "fnty c = \<lparr>ret = DoubleType, params = [DoubleType]\<rparr>" "operands c = [Arg 0 DoubleType]"
    by auto
  then have "c = \<lparr>callee = ''hpat_dist_reduce_f8'',
          fnty = \<lparr>ret = DoubleType, params = [DoubleType]\<rparr>, operands = [Arg 0 DoubleType]\<rparr>"
    by simp
  with a b c n show ?thesis by simp
qed

section \<open>The partition queries\<close>

text \<open>
  Claim C4, as stated, fails on the lowering: no implementation is registered for the
  three argument types \<open>(int64, int32, int32)\<close>, and with the registered four argument
  types the emitted call changes when only the first or only the second \<open>int64\<close>
  argument changes, so whichever of the two is the total length, the call depends on a
  further argument.
\<close>

theorem partition_three_arguments_counterexample:
  "dist_get_end [(int64, Constant (IntType 64) 10), (int32, Constant (IntType 32) 1),
                 (int32, Constant (IntType 32) 4)] = Inl NotImplementedError \<and>
   dist_get_portion [(int64, Constant (IntType 64) 10), (int32, Constant (IntType 32) 1),
                     (int32, Constant (IntType 32) 4)] = Inl NotImplementedError \<and>
   dist_get_end [(int64, Constant (IntType 64) 10), (int64, Constant (IntType 64) 3),
                 (int32, Constant (IntType 32) 4), (int32, Constant (IntType 32) 1)] \<noteq>
   dist_get_end [(int64, Constant (IntType 64) 10), (int64, Constant (IntType 64) 2),
                 (int32, Constant (IntType 32) 4), (int32, Constant (IntType 32) 1)] \<and>
   dist_get_end [(int64, Constant (IntType 64) 10), (int64, Constant (IntType 64) 3),
                 (int32, Constant (IntType 32) 4), (int32, Constant (IntType 32) 1)] \<noteq>
   dist_get_end [(int64, Constant (IntType 64) 11), (int64, Constant (IntType 64) 3),
                 (int32, Constant (IntType 32) 4), (int32, Constant (IntType 32) 1)] \<and>
   dist_get_portion [(int64, Constant (IntType 64) 10), (int64, Constant (IntType 64) 3),
                 (int32, Constant (IntType 32) 4), (int32, Constant (IntType 32) 1)] \<noteq>
   dist_get_portion [(int64, Constant (IntType 64) 10), (int64, Constant (IntType 64) 2),
                 (int32, Constant (IntType 32) 4), (int32, Constant (IntType 32) 1)] \<and>
   dist_get_portion [(int64, Constant (IntType 64) 10), (int64, Constant (IntType 64) 3),
                 (int32, Constant (IntType 32) 4), (int32, Constant (IntType 32) 1)] \<noteq>
   dist_get_portion [(int64, Constant (IntType 64) 11), (int64, Constant (IntType 64) 3),
                 (int32, Constant (IntType 32) 4), (int32, Constant (IntType 32) 1)]"
  by (simp add: dist_get_end_def dist_get_portion_def)

text \<open>
  Claim C4, amended. \<open>dist_get_end\<close> and \<open>dist_get_portion\<close> are lowered for exactly the
  argument types \<open>(int64, int64, int32, int32)\<close>, each to one call of its native routine
  (\<open>hpat_dist_get_end\<close>, \<open>hpat_dist_get_node_portion\<close>) that returns a 64-bit integer
  and receives the four arguments unchanged and in order: the emitted call is a function
  of these four arguments and of nothing else.
\<close>

theorem partition_call_forwards_four_arguments:
  "dist_get_end [(int64, a0), (int64, a1), (int32, a2), (int32, a3)] =
     Inr \<lparr>callee = ''hpat_dist_get_end'',
          fnty = \<lparr>ret = IntType 64,
                  params = [IntType 64, IntType 64, IntType 32, IntType 32]\<rparr>,
          operands = [a0, a1, a2, a3]\<rparr> \<and>
   dist_get_portion [(int64, a0), (int64, a1), (int32, a2), (int32, a3)] =
     Inr \<lparr>callee = ''hpat_dist_get_node_portion'',
          fnty = \<lparr>ret = IntType 64,
                  params = [IntType 64, IntType 64, IntType 32, IntType 32]\<rparr>,
          operands = [a0, a1, a2, a3]\<rparr> \<and>
   ((\<exists>c. dist_get_end targs = Inr c) \<longleftrightarrow> map fst targs = [int64, int64, int32, int32]) \<and>
   ((\<exists>c. dist_get_portion targs = Inr c) \<longleftrightarrow> map fst targs = [int64, int64, int32, int32])"
  by (simp add: dist_get_end_def dist_get_portion_def Let_def)

theorem partition_call_forwards_four_arguments_witness:
  "dist_get_end [(int64, Constant (IntType 64) 10), (int64, Constant (IntType 64) 3),
                 (int32, Constant (IntType 32) 4), (int32, Constant (IntType 32) 1)] =
     Inr \<lparr>callee = ''hpat_dist_get_end'',
          fnty = \<lparr>ret = IntType 64,
                  params = [IntType 64, IntType 64, IntType 32, IntType 32]\<rparr>,
          operands = [Constant (IntType 64) 10, Constant (IntType 64) 3,
                      Constant (IntType 32) 4, Constant (IntType 32) 1]\<rparr>"
  using partition_call_forwards_four_arguments
    [of "Constant (IntType 64) 10" "Constant (IntType 64) 3"
        "Constant (IntType 32) 4" "Constant (IntType 32) 1"]
  by (rule conjunct1)

subsection \<open>The shares of the specification\<close>

lemma partitionEnd_below: "r < 0 \<Longrightarrow> partitionEnd t r w = 0"
  by (simp add: partitionEnd_def)

lemma partitionEnd_step:
  "0 \<le> r \<Longrightarrow> partitionEnd t r w = partitionEnd t (r - 1) w + share t r w"
  by (simp add: partitionEnd_def upto_rec2 [of 0 r])

lemma partitionSize_share: "0 \<le> r \<Longrightarrow> partitionSize t r w = share t r w"
  by (simp add: partitionSize_def partitionEnd_step [of r])

lemma partitionEnd_closed:
  assumes "1 \<le> w" "-1 \<le> r"
  shows "partitionEnd t r w = (r + 1) * (t div w) + min (r + 1) (t mod w)"
  using assms(2)
proof (induction r rule: int_ge_induct)
  case base
  from assms(1) have "0 \<le> t mod w" by simp
  then show ?case by (simp add: partitionEnd_below)
next
  case (step r)
  from step.hyps have "0 \<le> r + 1" by simp
  from partitionEnd_step [OF this, of t w] step.IH
  have "partitionEnd t (r + 1) w =
        (r + 1) * (t div w) + min (r + 1) (t mod w) + share t (r + 1) w" by simp
  also have "\<dots> = (r + 1 + 1) * (t div w) + min (r + 1 + 1) (t mod w)"
    by (simp add: share_def Let_def algebra_simps min_def)
  finally show ?case .
qed

lemma partition_sizes_total:
  assumes "1 \<le> w"
  shows "sum_list (map (\<lambda>r. partitionSize t r w) [0..w - 1]) = t"
proof -
  have "map (\<lambda>r. partitionSize t r w) [0..w - 1] = map (\<lambda>r. share t r w) [0..w - 1]"
    by (rule map_cong) (simp_all add: partitionSize_share)
  then have "sum_list (map (\<lambda>r. partitionSize t r w) [0..w - 1]) = partitionEnd t (w - 1) w"
    by (simp only: partitionEnd_def)
  also have "\<dots> = w * (t div w) + min w (t mod w)"
    using partitionEnd_closed [of w "w - 1" t] assms by simp
  also have "\<dots> = t"
  proof -
    from assms have "t mod w < w" by simp
    then have "min w (t mod w) = t mod w" by simp
    then show ?thesis by simp
  qed
  finally show ?thesis .
qed

text \<open>For a total length and a world size in range, every size and every end lies
  between 0 and the total length: the 64-bit arithmetic of the native routines cannot
  wrap, and unbounded integers model it.\<close>

lemma partition_within_total:
  assumes "0 \<le> t" "1 \<le> w" "0 \<le> r" "r < w"
  shows "0 \<le> partitionSize t r w \<and> partitionSize t r w \<le> partitionEnd t r w \<and>
         partitionEnd t r w \<le> t"
proof -
  have d: "0 \<le> t div w" and m: "0 \<le> t mod w" "t mod w < w"
    using assms by (simp_all add: pos_imp_zdiv_nonneg_iff)
  have e: "partitionEnd t r w = (r + 1) * (t div w) + min (r + 1) (t mod w)"
    using assms by (intro partitionEnd_closed) simp_all
  have e': "partitionEnd t (r - 1) w = r * (t div w) + min r (t mod w)"
    using partitionEnd_closed [of w "r - 1" t] assms by simp
  have "0 \<le> r * (t div w)" using assms d by simp
  with e' m assms have p: "0 \<le> partitionEnd t (r - 1) w" by simp
  have s: "0 \<le> partitionSize t r w"
    using assms d by (simp add: partitionSize_share share_def Let_def)
  have "(r + 1) * (t div w) \<le> w * (t div w)"
    using assms d by (intro mult_right_mono) simp_all
  moreover have "min (r + 1) (t mod w) \<le> t mod w" by simp
  ultimately have "partitionEnd t r w \<le> w * (t div w) + t mod w" using e by linarith
  then have "partitionEnd t r w \<le> t" by simp
  moreover have "partitionSize t r w \<le> partitionEnd t r w"
    using p by (simp add: partitionSize_def)
  ultimately show ?thesis using s by simp
qed

text \<open>
  Claim C5. For every total length \<open>\<ge> 0\<close> and every world size \<open>\<ge> 1\<close>, the sizes of
  the ranks \<open>0..worldSize - 1\<close> add up to the total length.
\<close>

theorem partition_sizes_sum_to_total:
  assumes "0 \<le> totalLength" and "1 \<le> worldSize"
  shows "sum_list (map (\<lambda>rank. partitionSize totalLength rank worldSize) [0..worldSize - 1])
         = totalLength"
  using assms(2) by (rule partition_sizes_total)

theorem partition_sizes_sum_to_total_witness:
  "(0::int) \<le> 10 \<and> (1::int) \<le> 4 \<and>
   sum_list (map (\<lambda>rank. partitionSize 10 rank 4) [0..4 - 1]) = 10 \<and>
   map (\<lambda>rank. partitionSize 10 rank 4) [0, 1, 2, 3] = [3, 3, 2, 2]"
proof -
  have a: "(0::int) \<le> 10" and b: "(1::int) \<le> 4" by simp_all
  have "map (\<lambda>rank. partitionSize 10 rank 4) [0, 1, 2, 3] = [3, 3, 2, 2]"
    by (simp add: partitionSize_share share_def)
  with partition_sizes_sum_to_total [OF a b] show ?thesis by simp
qed

text \<open>
  Claim C6. For every total length \<open>\<ge> 0\<close>, world size \<open>\<ge> 1\<close> and rank below the world
  size, with base = totalLength div worldSize and remainder = totalLength mod worldSize:
  the size of the rank is base + 1 when the rank is below the remainder and base
  otherwise; the end of the rank is the sum of the sizes of the ranks up to it; and the
  sizes of any two ranks differ by at most 1.
\<close>

theorem partition_shares_balanced:
  assumes "0 \<le> totalLength" and "1 \<le> worldSize"
    and "0 \<le> rank" and "rank < worldSize"
  shows "partitionSize totalLength rank worldSize =
           (if rank < totalLength mod worldSize then totalLength div worldSize + 1
            else totalLength div worldSize) \<and>
         partitionEnd totalLength rank worldSize =
           sum_list (map (\<lambda>k. partitionSize totalLength k worldSize) [0..rank]) \<and>
         (\<forall>r1 r2. 0 \<le> r1 \<and> r1 < worldSize \<and> 0 \<le> r2 \<and> r2 < worldSize \<longrightarrow>
            partitionSize totalLength r1 worldSize - partitionSize totalLength r2 worldSize \<le> 1)"
proof (intro conjI allI impI)
  show "partitionSize totalLength rank worldSize =
           (if rank < totalLength mod worldSize then totalLength div worldSize + 1
            else totalLength div worldSize)"
    using assms(3) by (simp add: partitionSize_share share_def Let_def)
  have "map (\<lambda>k. partitionSize totalLength k worldSize) [0..rank] =
        map (\<lambda>k. share totalLength k worldSize) [0..rank]"
    by (rule map_cong) (simp_all add: partitionSize_share)
  then show "partitionEnd totalLength rank worldSize =
           sum_list (map (\<lambda>k. partitionSize totalLength k worldSize) [0..rank])"
    by (simp only: partitionEnd_def)
next
  fix r1 r2 assume "0 \<le> r1 \<and> r1 < worldSize \<and> 0 \<le> r2 \<and> r2 < worldSize"
  then show "partitionSize totalLength r1 worldSize - partitionSize totalLength r2 worldSize \<le> 1"
    by (simp add: partitionSize_share share_def Let_def)
qed

theorem partition_shares_balanced_witness:
  "(0::int) \<le> 10 \<and> (1::int) \<le> 4 \<and> (0::int) \<le> 1 \<and> (1::int) < 4 \<and>
   partitionSize 10 1 4 = 3 \<and> partitionEnd 10 1 4 = 6 \<and>
   partitionSize 10 0 4 - partitionSize 10 3 4 \<le> 1"
proof -
  have a: "(0::int) \<le> 10" and b: "(1::int) \<le> 4" and c: "(0::int) \<le> 1" and d: "(1::int) < 4"
    by simp_all
  note th = partition_shares_balanced [OF a b c d]
  from th have s: "partitionSize 10 1 4 = 3" by simp
  from th have "partitionEnd 10 1 4 = sum_list (map (\<lambda>k. partitionSize 10 k 4) [0..1])"
    by blast
  also have "\<dots> = 6" by (simp add: upto_rec1 partitionSize_share share_def)
  finally have e: "partitionEnd 10 1 4 = 6" .
  from th have "partitionSize 10 0 4 - partitionSize 10 3 4 \<le> 1" by simp
  with s e show ?thesis by simp
qed

section \<open>Array reduction\<close>

lemma foldl_map2_nth:
  fixes acc :: "'a::monoid_add list"
  assumes "\<forall>b \<in> set bs. length b = length acc"
  shows "length (foldl (\<lambda>acc x. map2 (+) acc x) acc bs) = length acc \<and>
         (\<forall>j < length acc. foldl (\<lambda>acc x. map2 (+) acc x) acc bs ! j =
                             acc ! j + sum_list (map (\<lambda>b. b ! j) bs))"
  using assms
proof (induction bs arbitrary: acc)
  case Nil
  then show ?case by simp
next
  case (Cons b bs)
  let ?acc = "map2 (+) acc b"
  from Cons.prems have lb: "length b = length acc" by simp
  then have la: "length ?acc = length acc" by simp
  from Cons.prems la have "\<forall>x \<in> set bs. length x = length ?acc" by simp
  from Cons.IH [OF this] la lb show ?case by (simp add: add.assoc)
qed

lemma elementwise_sum_nth:
  fixes bufs :: "'a::monoid_add list list"
  assumes "bufs \<noteq> []" "\<forall>b \<in> set bufs. length b = m"
  shows "length (elementwise_sum bufs) = m \<and>
         (\<forall>j < m. elementwise_sum bufs ! j = sum_list (map (\<lambda>b. b ! j) bufs))"
proof (cases bufs)
  case Nil
  with assms show ?thesis by simp
next
  case (Cons b bs)
  with assms have "\<forall>x \<in> set bs. length x = length b" and m: "length b = m" by simp_all
  from foldl_map2_nth [OF this(1)] m show ?thesis
    by (simp add: elementwise_sum_def Cons)
qed

text \<open>
  Claim C3, as stated, fails: for a one-dimensional \<open>float64\<close> array the emitted call has
  the return type \<open>IntType 32\<close>, which is not the type of the array; what the lowering
  returns is the 32-bit integer of the native routine. (The value of the type tag, here
  0, does not enter the function type.)
\<close>

theorem arr_reduce_returns_array_counterexample:
  "lower_dist_arr_reduce [float64 \<mapsto> 0] [(Array float64 1, Arg 0 (ArrayStruct float64 1))] =
     Inr \<lparr>callee = ''hpat_dist_arr_reduce'',
          fnty = \<lparr>ret = IntType 32,
                  params = [PointerType (IntType 8), PointerType (IntType 64),
                            IntType 32, IntType 32]\<rparr>,
          operands =
            [bitcast (array_data (Arg 0 (ArrayStruct float64 1))) (PointerType (IntType 8)),
             bitcast (alloca_once_store (ArrayType (IntType 64) 1)
                        (array_shape (Arg 0 (ArrayStruct float64 1))))
               (PointerType (IntType 64)),
             load (alloca_once_value (Constant (IntType 32) 1)),
             load (alloca_once_value (Constant (IntType 32) 0))]\<rparr> \<and>
   IntType 32 \<noteq> value_type (Array float64 1)"
  by (simp add: lower_dist_arr_reduce_def Let_def)

text \<open>
  Claim C3, amended. For an array whose element type has a tag in the type table,
  \<open>lower_dist_arr_reduce\<close> emits one call of \<open>hpat_dist_arr_reduce\<close> with the buffer's
  data pointer, a pointer to its shape, its number of dimensions and the type tag, and
  returns that routine's 32-bit integer, not an array. The combined array is delivered
  in the buffer: with the native routine as the specification describes it, after the
  call the buffer holds, at every position, the sum of all workers' buffers at that
  position, no other array has changed, and with a single worker the buffer is
  unchanged.
\<close>

theorem arr_reduce_returns_status_and_combines_in_place:
  fixes bufs :: "'a::monoid_add list list"
  assumes "h5_typ_table t = Some typ_enum"
    and "bufs \<noteq> []" and "\<forall>b \<in> set bufs. length b = m"
  shows "lower_dist_arr_reduce h5_typ_table [(Array t n, a)] =
           Inr \<lparr>callee = ''hpat_dist_arr_reduce'',
                fnty = \<lparr>ret = IntType 32,
                        params = [PointerType (IntType 8), PointerType (IntType 64),
                                  IntType 32, IntType 32]\<rparr>,
                operands =
                  [bitcast (array_data a) (PointerType (IntType 8)),
                   bitcast (alloca_once_store (type_of (array_shape a)) (array_shape a))
                     (PointerType (IntType 64)),
                   load (alloca_once_value (Constant (IntType 32) (int n))),
                   load (alloca_once_value (Constant (IntType 32) typ_enum))]\<rparr> \<and>
         fst (hpat_dist_arr_reduce status bufs s arr) = status \<and>
         length (snd (hpat_dist_arr_reduce status bufs s arr) arr) = m \<and>
         (\<forall>j < m. snd (hpat_dist_arr_reduce status bufs s arr) arr ! j =
                    sum_list (map (\<lambda>b. b ! j) bufs)) \<and>
         (\<forall>a'. a' \<noteq> arr \<longrightarrow> snd (hpat_dist_arr_reduce status bufs s arr) a' = s a') \<and>
         hpat_dist_arr_reduce status [s arr] s arr = (status, s)"
proof -
  have 1: "lower_dist_arr_reduce h5_typ_table [(Array t n, a)] =
           Inr \<lparr>callee = ''hpat_dist_arr_reduce'',
                fnty = \<lparr>ret = IntType 32,
                        params = [PointerType (IntType 8), PointerType (IntType 64),
                                  IntType 32, IntType 32]\<rparr>,
                operands =
                  [bitcast (array_data a) (PointerType (IntType 8)),
                   bitcast (alloca_once_store (type_of (array_shape a)) (array_shape a))
                     (PointerType (IntType 64)),
                   load (alloca_once_value (Constant (IntType 32) (int n))),
                   load (alloca_once_value (Constant (IntType 32) typ_enum))]\<rparr>"
    using assms(1) by (simp add: lower_dist_arr_reduce_def Let_def)
  have 2: "hpat_dist_arr_reduce status [s arr] s arr = (status, s)"
    by (simp add: hpat_dist_arr_reduce_def elementwise_sum_def)
  from elementwise_sum_nth [OF assms(2,3)] 1 2 show ?thesis
    by (simp add: hpat_dist_arr_reduce_def)
qed

theorem arr_reduce_returns_status_and_combines_in_place_witness:
  "[int32 \<mapsto> (2::int)] int32 = Some 2 \<and> [[1, 2], [10, 20 :: 32 word]] \<noteq> [] \<and>
   lower_dist_arr_reduce [int32 \<mapsto> 2] [(Array int32 1, Arg 0 (ArrayStruct int32 1))] =
     Inr \<lparr>callee = ''hpat_dist_arr_reduce'',
          fnty = \<lparr>ret = IntType 32,
                  params = [PointerType (IntType 8), PointerType (IntType 64),
                            IntType 32, IntType 32]\<rparr>,
          operands =
            [bitcast (array_data (Arg 0 (ArrayStruct int32 1))) (PointerType (IntType 8)),
             bitcast (alloca_once_store (ArrayType (IntType 64) 1)
                        (array_shape (Arg 0 (ArrayStruct int32 1))))
               (PointerType (IntType 64)),
             load (alloca_once_value (Constant (IntType 32) 1)),
             load (alloca_once_value (Constant (IntType 32) 2))]\<rparr> \<and>
   fst (hpat_dist_arr_reduce 0 [[1, 2], [10, 20 :: 32 word]] ((\<lambda>a::nat. [])(0 := [1, 2])) 0) = 0 \<and>
   snd (hpat_dist_arr_reduce 0 [[1, 2], [10, 20 :: 32 word]] ((\<lambda>a::nat. [])(0 := [1, 2])) 0) 0 ! 0 = 11 \<and>
   snd (hpat_dist_arr_reduce 0 [[1, 2], [10, 20 :: 32 word]] ((\<lambda>a::nat. [])(0 := [1, 2])) 0) 0 ! 1 = 22 \<and>
   hpat_dist_arr_reduce 0 [[1, 2 :: 32 word]] ((\<lambda>a::nat. [])(0 := [1, 2])) 0 =
     (0, (\<lambda>a::nat. [])(0 := [1, 2]))"
proof -
  let ?s = "(\<lambda>a::nat. [])(0 := [1, 2 :: 32 word])"
  let ?bufs = "[[1, 2], [10, 20 :: 32 word]]"
  have t: "[int32 \<mapsto> (2::int)] int32 = Some 2" by simp
  have n: "?bufs \<noteq> []" by simp
  have m: "\<forall>b \<in> set ?bufs. length b = 2" by simp
  note th = arr_reduce_returns_status_and_combines_in_place
    [where h5_typ_table = "[int32 \<mapsto> 2]" and t = int32 and typ_enum = 2 and bufs = ?bufs
       and m = 2 and n = 1 and a = "Arg 0 (ArrayStruct int32 1)" and status = 0 and s = ?s
       and arr = 0, OF t n m]
  from th have 1: "lower_dist_arr_reduce [int32 \<mapsto> 2] [(Array int32 1, Arg 0 (ArrayStruct int32 1))] =
     Inr \<lparr>callee = ''hpat_dist_arr_reduce'',
          fnty = \<lparr>ret = IntType 32,
                  params = [PointerType (IntType 8), PointerType (IntType 64),
                            IntType 32, IntType 32]\<rparr>,
          operands =
            [bitcast (array_data (Arg 0 (ArrayStruct int32 1))) (PointerType (IntType 8)),
             bitcast (alloca_once_store (ArrayType (IntType 64) 1)
                        (array_shape (Arg 0 (ArrayStruct int32 1))))
               (PointerType (IntType 64)),
             load (alloca_once_value (Constant (IntType 32) 1)),
             load (alloca_once_value (Constant (IntType 32) 2))]\<rparr>" by simp
  from th have 2: "fst (hpat_dist_arr_reduce 0 ?bufs ?s 0) = 0" by blast
  from th have v: "\<forall>j < 2. snd (hpat_dist_arr_reduce 0 ?bufs ?s 0) 0 ! j =
                    sum_list (map (\<lambda>b. b ! j) ?bufs)" by blast
  from v have 3: "snd (hpat_dist_arr_reduce 0 ?bufs ?s 0) 0 ! 0 = 11"
    and 4: "snd (hpat_dist_arr_reduce 0 ?bufs ?s 0) 0 ! 1 = 22" by simp_all
  from th have "hpat_dist_arr_reduce 0 [?s 0] ?s 0 = (0, ?s)" by blast
  then have 5: "hpat_dist_arr_reduce 0 [[1, 2 :: 32 word]] ?s 0 = (0, ?s)" by simp
  from t n 1 2 3 4 5 show ?thesis by blast
qed

end
